theory Spec2Isabelle
  imports Complex_Main
begin

section \<open>Strings\<close>

text \<open>
  A Python \<^verbatim>\<open>str\<close> is a sequence of Unicode code points, and \<^verbatim>\<open>len\<close> counts code
  points. The model keeps that: a string is a list of code points, so the em dash
  (U+2014) of the templates and the ellipsis (U+2026) of the sanitizer are one element each.
\<close>

type_synonym ustr = "nat list"

definition str :: "string \<Rightarrow> ustr" where
  "str s = map of_char s"

definition SPACE :: nat where "SPACE = 32"
definition NEWLINE :: nat where "NEWLINE = 10"
definition EM_DASH :: nat where "EM_DASH = 8212"
definition ELLIPSIS :: nat where "ELLIPSIS = 8230"

text \<open>
  The code points that \<^verbatim>\<open>str.split()\<close>, \<^verbatim>\<open>str.strip()\<close> and the pattern \<^verbatim>\<open>\s\<close> of
  \<^verbatim>\<open>re\<close> treat as whitespace (one table in CPython serves all three).
\<close>

definition isspace :: "nat \<Rightarrow> bool" where
  "isspace c \<longleftrightarrow>
     (9 \<le> c \<and> c \<le> 13) \<or> (28 \<le> c \<and> c \<le> 32) \<or> c = 133 \<or> c = 160 \<or> c = 5760 \<or>
     (8192 \<le> c \<and> c \<le> 8202) \<or> c = 8232 \<or> c = 8233 \<or> c = 8239 \<or> c = 8287 \<or> c = 12288"

section \<open>Headlines: the bounded history and the update counter\<close>

text \<open>
  \<^verbatim>\<open>headlines = deque(maxlen=MAX_HEADLINES)\<close> and \<^verbatim>\<open>_update_counter = 0\<close> are the two
  globals of the module. \<^verbatim>\<open>appendleft\<close> on a bounded deque puts the item in front and,
  when that makes the deque longer than \<^verbatim>\<open>maxlen\<close>, drops the item at the right end.
\<close>

definition MAX_HEADLINES :: nat where "MAX_HEADLINES = 100"

record store =
  headlines :: "ustr list"
  update_counter :: nat

definition init_store :: store where
  "init_store = \<lparr>headlines = [], update_counter = 0\<rparr>"

definition deque_appendleft :: "nat \<Rightarrow> 'a \<Rightarrow> 'a list \<Rightarrow> 'a list" where
  "deque_appendleft maxlen x d =
     (let d' = x # d in if length d' > maxlen then butlast d' else d')"

definition appendleft :: "ustr \<Rightarrow> store \<Rightarrow> store" where
  "appendleft h s = s\<lparr>headlines := deque_appendleft MAX_HEADLINES h (headlines s)\<rparr>"

definition mark_updated :: "store \<Rightarrow> store" where
  "mark_updated s = s\<lparr>update_counter := update_counter s + 1\<rparr>"

definition get_update_counter :: "store \<Rightarrow> nat" where
  "get_update_counter s = update_counter s"

text \<open>
  One append, as \<^verbatim>\<open>event_message\<close> performs it: \<^verbatim>\<open>headlines.appendleft(headline)\<close>
  followed by \<^verbatim>\<open>mark_updated()\<close>.
\<close>

definition append_headline :: "ustr \<Rightarrow> store \<Rightarrow> store" where
  "append_headline h s = mark_updated (appendleft h s)"

fun run_appends :: "ustr list \<Rightarrow> store \<Rightarrow> store" where
  "run_appends [] s = s"
| "run_appends (h # hs) s = run_appends hs (append_headline h s)"

text \<open>
  Every state the store passes through while the appends run, the state between
  \<^verbatim>\<open>appendleft\<close> and \<^verbatim>\<open>mark_updated\<close> included.
\<close>

fun append_trace :: "ustr list \<Rightarrow> store \<Rightarrow> store list" where
  "append_trace [] s = [s]"
| "append_trace (h # hs) s = s # appendleft h s # append_trace hs (append_headline h s)"

section \<open>String operations of the Python runtime\<close>

text \<open>
  \<^verbatim>\<open>s.split()\<close>: the maximal runs of non-whitespace code points, in order. The first
  argument is the token being read.
\<close>

fun split_from :: "ustr \<Rightarrow> ustr \<Rightarrow> ustr list" where
  "split_from w [] = (if w = [] then [] else [w])"
| "split_from w (c # cs) =
     (if isspace c then (if w = [] then split_from [] cs else w # split_from [] cs)
      else split_from (w @ [c]) cs)"

definition split_ws :: "ustr \<Rightarrow> ustr list" where
  "split_ws s = split_from [] s"

text \<open>\<^verbatim>\<open>sep.join(ws)\<close>.\<close>

fun join :: "ustr \<Rightarrow> ustr list \<Rightarrow> ustr" where
  "join sep [] = []"
| "join sep [w] = w"
| "join sep (w # ws) = w @ sep @ join sep ws"

text \<open>\<^verbatim>\<open>s.strip()\<close> and \<^verbatim>\<open>s.strip(chars)\<close>: drop the code points of a class at both ends.\<close>

definition strip_where :: "(nat \<Rightarrow> bool) \<Rightarrow> ustr \<Rightarrow> ustr" where
  "strip_where P s = rev (dropWhile P (rev (dropWhile P s)))"

definition strip :: "ustr \<Rightarrow> ustr" where
  "strip s = strip_where isspace s"

text \<open>
  The case data of the Unicode database is a parameter: the full upper-case mapping of a
  code point (one to three code points) and the three case properties that
  \<^verbatim>\<open>str.isupper\<close> reads.
\<close>

record casetab =
  upper_of :: "nat \<Rightarrow> ustr"
  is_upper :: "nat \<Rightarrow> bool"
  is_lower :: "nat \<Rightarrow> bool"
  is_title :: "nat \<Rightarrow> bool"

text \<open>The table restricted to ASCII letters; every other code point is uncased.\<close>

definition ascii_case :: casetab where
  "ascii_case =
     \<lparr>upper_of = (\<lambda>c. if 97 \<le> c \<and> c \<le> 122 then [c - 32] else [c]),
      is_upper = (\<lambda>c. 65 \<le> c \<and> c \<le> 90),
      is_lower = (\<lambda>c. 97 \<le> c \<and> c \<le> 122),
      is_title = (\<lambda>c. False)\<rparr>"

definition py_upper :: "casetab \<Rightarrow> ustr \<Rightarrow> ustr" where
  "py_upper T s = concat (map (upper_of T) s)"

text \<open>
  \<^verbatim>\<open>s.isupper()\<close>: no lower-case or title-case code point and at least one upper-case
  one; CPython answers a string of one code point from its upper-case property alone.
\<close>

fun isupper_loop :: "casetab \<Rightarrow> bool \<Rightarrow> ustr \<Rightarrow> bool" where
  "isupper_loop T cased [] = cased"
| "isupper_loop T cased (c # cs) =
     (if is_lower T c \<or> is_title T c then False
      else isupper_loop T (cased \<or> is_upper T c) cs)"

definition py_isupper :: "casetab \<Rightarrow> ustr \<Rightarrow> bool" where
  "py_isupper T w = (case w of [c] \<Rightarrow> is_upper T c | _ \<Rightarrow> isupper_loop T False w)"

text \<open>\<^verbatim>\<open>max(options, key=len)\<close> on a non-empty list: the first item of greatest length.\<close>

fun max_key_len :: "ustr \<Rightarrow> ustr list \<Rightarrow> ustr" where
  "max_key_len best [] = best"
| "max_key_len best (x # xs) =
     (if length x > length best then max_key_len x xs else max_key_len best xs)"

text \<open>Substring test, \<^verbatim>\<open>sub in s\<close>.\<close>

fun starts_with :: "ustr \<Rightarrow> ustr \<Rightarrow> bool" where
  "starts_with [] s = True"
| "starts_with (p # ps) [] = False"
| "starts_with (p # ps) (c # cs) = (p = c \<and> starts_with ps cs)"

fun contains :: "ustr \<Rightarrow> ustr \<Rightarrow> bool" where
  "contains sub [] = (sub = [])"
| "contains sub (c # cs) = (starts_with sub (c # cs) \<or> contains sub cs)"

section \<open>Title casing and the template fallback\<close>

text \<open>The inner function \<^verbatim>\<open>fix\<close> of \<^verbatim>\<open>smart_title\<close> is \<open>fix_word\<close> here.\<close>

definition fix_word :: "casetab \<Rightarrow> ustr \<Rightarrow> ustr" where
  "fix_word T word = (if py_isupper T word then word else py_upper T (take 1 word) @ drop 1 word)"

definition smart_title :: "casetab \<Rightarrow> ustr \<Rightarrow> ustr" where
  "smart_title T s = join [SPACE] (map (fix_word T) (split_ws s))"

definition option1 :: "ustr \<Rightarrow> ustr \<Rightarrow> ustr" where
  "option1 username message =
     str ''BREAKING: '' @ username @ str '' Stuns The Internet '' @ [EM_DASH, SPACE] @ message"

definition option2 :: "ustr \<Rightarrow> ustr \<Rightarrow> ustr" where
  "option2 username message =
     str ''ALERT: '' @ username @ str '' Sparks Frenzy '' @ [EM_DASH, SPACE] @ message"

definition option3 :: "ustr \<Rightarrow> ustr \<Rightarrow> ustr" where
  "option3 username message =
     str ''LIVE NOW: '' @ username @ str '' Shocks Chat '' @ [EM_DASH, SPACE] @ message"

definition option4 :: "ustr \<Rightarrow> ustr \<Rightarrow> ustr" where
  "option4 username message =
     str ''HEADS UP: '' @ username @ str '' Just Dropped This '' @ [EM_DASH, SPACE] @ message"

text \<open>The local \<^verbatim>\<open>base\<close> is computed and never used; it is kept as the source has it.\<close>

definition template_fallback :: "casetab \<Rightarrow> ustr \<Rightarrow> ustr \<Rightarrow> ustr" where
  "template_fallback T username message =
     (let base = strip (str ''BREAKING: '' @ username @ [SPACE] @ take 80 message);
          best = max_key_len (option1 username message)
                   [option2 username message, option3 username message,
                    option4 username message]
      in smart_title T best)"

text \<open>
  What the proofs about title casing need from the case data: the upper-case mapping of a
  code point is never empty, maps no non-whitespace code point to whitespace, and its first
  code point is itself left alone by the mapping. The Unicode database has all three.
\<close>

definition case_ok :: "casetab \<Rightarrow> bool" where
  "case_ok T \<longleftrightarrow>
     (\<forall>c. upper_of T c \<noteq> []
        \<and> (\<not> isspace c \<longrightarrow> list_all (\<lambda>x. \<not> isspace x) (upper_of T c))
        \<and> upper_of T (hd (upper_of T c)) = [hd (upper_of T c)])"

section \<open>Text cleaning\<close>

text \<open>
  \<^verbatim>\<open>re.sub(r"https?://\S+", "", msg)\<close>. The pattern at the start of a string: the
  literal \<^verbatim>\<open>https://\<close> or \<^verbatim>\<open>http://\<close>, then at least one non-whitespace code point,
  then every non-whitespace code point that follows (the quantifier is greedy and nothing
  comes after it). \<open>match_url\<close> returns what is left of the string after the match.
\<close>

definition url_rest :: "ustr \<Rightarrow> ustr option" where
  "url_rest r = (case r of [] \<Rightarrow> None
                 | c # cs \<Rightarrow> if isspace c then None else Some (dropWhile (\<lambda>x. \<not> isspace x) cs))"

definition match_url :: "ustr \<Rightarrow> ustr option" where
  "match_url s =
     (if starts_with (str ''https://'') s then url_rest (drop 8 s)
      else if starts_with (str ''http://'') s then url_rest (drop 7 s)
      else None)"

text \<open>
  The substitution scans from the left: where the pattern matches, the match is dropped
  and the scan goes on after it; elsewhere the code point is kept.
\<close>

function strip_urls :: "ustr \<Rightarrow> ustr" where
  "strip_urls [] = []"
| "strip_urls (c # cs) =
     (case match_url (c # cs) of Some rest \<Rightarrow> strip_urls rest | None \<Rightarrow> c # strip_urls cs)"
  by pat_completeness auto
termination
proof (relation "measure length")
  show "wf (measure length)" by simp
next
  fix c :: nat and cs rest :: ustr
  assume m: "match_url (c # cs) = Some rest"
  have r: "\<And>q. url_rest q = Some rest \<Longrightarrow> length rest < length q"
  proof -
    fix q assume "url_rest q = Some rest"
    then obtain d ds where "q = d # ds" "rest = dropWhile (\<lambda>x. \<not> isspace x) ds"
      by (auto simp: url_rest_def split: list.splits if_splits)
    then show "length rest < length q"
      using length_dropWhile_le [of "\<lambda>x. \<not> isspace x" ds] by simp
  qed
  have "length rest < length (c # cs)"
  proof (cases "starts_with (str ''https://'') (c # cs)")
    case True
    then have "url_rest (drop 8 (c # cs)) = Some rest"
      by (metis m match_url_def)
    then have "length rest < length (drop 8 (c # cs))" by (rule r)
    then show ?thesis by simp
  next
    case False
    then have "url_rest (drop 7 (c # cs)) = Some rest"
      by (metis m match_url_def option.distinct(1))
    then have "length rest < length (drop 7 (c # cs))" by (rule r)
    then show ?thesis by simp
  qed
  then show "(rest, c # cs) \<in> measure length" by simp
next
  fix c :: nat and cs :: ustr
  show "(cs, c # cs) \<in> measure length" by simp
qed

text \<open>\<^verbatim>\<open>re.sub(r"\s+", " ", msg)\<close>: every maximal run of whitespace becomes one space.\<close>

function collapse_ws :: "ustr \<Rightarrow> ustr" where
  "collapse_ws [] = []"
| "collapse_ws (c # cs) =
     (if isspace c then SPACE # collapse_ws (dropWhile isspace cs) else c # collapse_ws cs)"
  by pat_completeness auto
termination
  by (relation "measure length") (auto simp: length_dropWhile_le less_Suc_eq_le)

definition clean_message :: "ustr \<Rightarrow> ustr" where
  "clean_message msg =
     (if msg = [] then []
      else let msg1 = strip_urls msg;
               msg2 = strip (collapse_ws msg1)
           in if length msg2 > 300 then take 300 msg2 @ [ELLIPSIS] else msg2)"

text \<open>Whether the pattern of \<open>match_url\<close> matches anywhere in a string.\<close>

fun has_http_url :: "ustr \<Rightarrow> bool" where
  "has_http_url [] = False"
| "has_http_url (c # cs) = (match_url (c # cs) \<noteq> None \<or> has_http_url cs)"

text \<open>
  The specification's wording of the sanitizer's first step is wider: every substring of
  the form \<^verbatim>\<open>scheme://non-whitespace-run\<close>. \<open>spec_has_url\<close> follows those words: a
  letter (the end of a scheme), then \<^verbatim>\<open>://\<close>, then a non-whitespace code point.
\<close>

definition is_ascii_letter :: "nat \<Rightarrow> bool" where
  "is_ascii_letter c \<longleftrightarrow> (65 \<le> c \<and> c \<le> 90) \<or> (97 \<le> c \<and> c \<le> 122)"

fun spec_has_url :: "ustr \<Rightarrow> bool" where
  "spec_has_url [] = False"
| "spec_has_url (c # cs) =
     ((is_ascii_letter c \<and> starts_with (str ''://'') cs
         \<and> (case drop 3 cs of [] \<Rightarrow> False | d # ds \<Rightarrow> \<not> isspace d))
      \<or> spec_has_url cs)"

section \<open>Configuration\<close>

text \<open>
  \<^verbatim>\<open>HEADLINE_MAX_WORDS\<close> and \<^verbatim>\<open>MESSAGE_RATE\<close> are read from the environment when the
  module is loaded, with the defaults 14 and 0.25.
\<close>

record config =
  headline_max_words :: nat
  message_rate :: rat

definition default_config :: config where
  "default_config = \<lparr>headline_max_words = 14, message_rate = 1 / 4\<rparr>"

section \<open>The local LLM: primary path and fallback\<close>

text \<open>
  The exceptions the body of the \<^verbatim>\<open>try\<close> can raise. All of them are subclasses of
  \<^verbatim>\<open>Exception\<close>; \<open>KeyboardInterrupt\<close> stands for the exceptions that are not, which
  \<^verbatim>\<open>except Exception\<close> lets through.
\<close>

datatype exn =
  RequestException | HTTPError | JSONDecodeError | AttributeError | ValueError | ReError
  | KeyboardInterrupt

fun is_Exception :: "exn \<Rightarrow> bool" where
  "is_Exception KeyboardInterrupt = False"
| "is_Exception e = True"

text \<open>A decoded JSON document; an object is the list of its members.\<close>

datatype json =
  JNull | JBool bool | JNum int | JStr ustr | JList "json list" | JDict "(ustr \<times> json) list"

text \<open>
  What the backend does with the POST: the request fails (no connection, timeout after
  60 seconds), or a response arrives with a status code and a body, which decodes as JSON
  or does not.
\<close>

datatype backend = RequestFails | Responds nat "json option"

definition raise_for_status :: "nat \<Rightarrow> exn + unit" where
  "raise_for_status status = (if 400 \<le> status \<and> status < 600 then Inl HTTPError else Inr ())"

text \<open>\<^verbatim>\<open>resp.json().get("response", "").strip()\<close>.\<close>

definition response_text :: "json option \<Rightarrow> exn + ustr" where
  "response_text body =
     (case body of
        None \<Rightarrow> Inl JSONDecodeError
      | Some (JDict members) \<Rightarrow>
          (case (case map_of members (str ''response'') of Some v \<Rightarrow> v | None \<Rightarrow> JStr []) of
             JStr s \<Rightarrow> Inr (strip s)
           | _ \<Rightarrow> Inl AttributeError)
      | Some _ \<Rightarrow> Inl AttributeError)"

text \<open>\<^verbatim>\<open>text.split('\n')[0]\<close>: the text up to the first newline.\<close>

definition first_line :: "ustr \<Rightarrow> ustr" where
  "first_line s = takeWhile (\<lambda>c. c \<noteq> NEWLINE) s"

text \<open>
  The two library calls of the author-name safety net are parameters: \<^verbatim>\<open>str.lower\<close>, and
  \<^verbatim>\<open>re.sub(re.escape(username), username, headline, flags=re.IGNORECASE)\<close>, which raises
  \<^verbatim>\<open>re.error\<close> (the result \<open>None\<close>) when the replacement is not a valid template.
\<close>

record relib =
  py_lower :: "ustr \<Rightarrow> ustr"
  sub_ignorecase :: "ustr \<Rightarrow> ustr \<Rightarrow> ustr option"

text \<open>The body of the \<^verbatim>\<open>try\<close>, from the response on.\<close>

definition postprocess :: "config \<Rightarrow> relib \<Rightarrow> casetab \<Rightarrow> ustr \<Rightarrow> ustr \<Rightarrow> exn + ustr" where
  "postprocess cfg L T username text =
     (if text = [] then Inl ValueError
      else
        let headline = strip (first_line text);
            headline = strip_where (\<lambda>c. c = 39) (strip_where (\<lambda>c. c = 34) headline);
            words = split_ws headline;
            headline = (if length words > headline_max_words cfg
                        then join [SPACE] (take (headline_max_words cfg) words) else headline)
        in case (if contains (py_lower L username) (py_lower L headline)
                 then sub_ignorecase L username headline else Some headline) of
             None \<Rightarrow> Inl ReError
           | Some headline \<Rightarrow> Inr (smart_title T (collapse_ws headline)))"

definition primary_path :: "config \<Rightarrow> relib \<Rightarrow> casetab \<Rightarrow> backend \<Rightarrow> ustr \<Rightarrow> exn + ustr" where
  "primary_path cfg L T b username =
     (case b of
        RequestFails \<Rightarrow> Inl RequestException
      | Responds status body \<Rightarrow>
          (case raise_for_status status of
             Inl e \<Rightarrow> Inl e
           | Inr _ \<Rightarrow>
               (case response_text body of
                  Inl e \<Rightarrow> Inl e
                | Inr text \<Rightarrow> postprocess cfg L T username text)))"

text \<open>\<^verbatim>\<open>try: ... except Exception as e: return template_fallback(username, message)\<close>.\<close>

definition generate_headline_local_llm ::
  "config \<Rightarrow> relib \<Rightarrow> casetab \<Rightarrow> backend \<Rightarrow> ustr \<Rightarrow> ustr \<Rightarrow> exn + ustr" where
  "generate_headline_local_llm cfg L T b username message =
     (case primary_path cfg L T b username of
        Inr headline \<Rightarrow> Inr headline
      | Inl e \<Rightarrow> if is_Exception e then Inr (template_fallback T username message) else Inl e)"

section \<open>The chat listener\<close>

text \<open>
  An inbound chat message: \<^verbatim>\<open>message.author\<close> and \<^verbatim>\<open>message.content\<close> may each be
  \<^verbatim>\<open>None\<close>.
\<close>

record chat_message =
  author :: "ustr option"
  content :: "ustr option"

text \<open>
  The state \<^verbatim>\<open>event_message\<close> works on: the store, and a log of the calls made to
  \<^verbatim>\<open>generate_headline_local_llm\<close> (author and cleaned text of each), which is how the
  model observes that a message reached the transformer.
\<close>

record world =
  store_of :: store
  llm_calls :: "(ustr \<times> ustr) list"

text \<open>
  \<^verbatim>\<open>random.random()\<close> returns \<open>k / 2^53\<close> for an integer \<open>0 \<le> k < 2^53\<close>; the draw is
  passed in as that rational, and the comparison with \<^verbatim>\<open>MESSAGE_RATE\<close> is exact.
\<close>

definition is_draw :: "rat \<Rightarrow> bool" where
  "is_draw d \<longleftrightarrow> 0 \<le> d \<and> d < 1"

definition event_message ::
  "config \<Rightarrow> relib \<Rightarrow> casetab \<Rightarrow> backend \<Rightarrow> rat \<Rightarrow> chat_message \<Rightarrow> world \<Rightarrow> exn + world" where
  "event_message cfg L T b draw message w =
     (let username = (case author message of Some name \<Rightarrow> name | None \<Rightarrow> str ''someone'');
          raw = (case content message of Some c \<Rightarrow> c | None \<Rightarrow> []);
          cleaned = clean_message raw
      in if cleaned = [] then Inr w
         else if draw > message_rate cfg then Inr w
         else (case generate_headline_local_llm cfg L T b username cleaned of
                 Inl e \<Rightarrow> Inl e
               | Inr headline \<Rightarrow>
                   Inr \<lparr>store_of = mark_updated (appendleft headline (store_of w)),
                        llm_calls = llm_calls w @ [(username, cleaned)]\<rparr>))"

section \<open>Readers and the listener, interleaved\<close>

text \<open>
  The listener thread runs \<^verbatim>\<open>headlines.appendleft(headline)\<close> and then
  \<^verbatim>\<open>mark_updated()\<close>; a request to \<^verbatim>\<open>/api/headlines\<close> evaluates
  \<^verbatim>\<open>get_update_counter()\<close> and then \<^verbatim>\<open>list(headlines)\<close>. Each of the four is taken as one
  atomic step (the lock covers the counter only); a schedule is the order in which the
  steps of the two threads run.
\<close>

datatype step =
  Listener_appendleft ustr | Listener_mark_updated
  | Reader_get_update_counter | Reader_list_headlines

record system =
  shared :: store
  version_read :: "nat option"
  responses :: "(nat \<times> ustr list) list"

definition init_system :: system where
  "init_system = \<lparr>shared = init_store, version_read = None, responses = []\<rparr>"

fun exec_step :: "step \<Rightarrow> system \<Rightarrow> system" where
  "exec_step (Listener_appendleft h) s = s\<lparr>shared := appendleft h (shared s)\<rparr>"
| "exec_step Listener_mark_updated s = s\<lparr>shared := mark_updated (shared s)\<rparr>"
| "exec_step Reader_get_update_counter s =
     s\<lparr>version_read := Some (get_update_counter (shared s))\<rparr>"
| "exec_step Reader_list_headlines s =
     (case version_read s of
        None \<Rightarrow> s
      | Some v \<Rightarrow> s\<lparr>version_read := None,
                     responses := responses s @ [(v, headlines (shared s))]\<rparr>)"

fun run_schedule :: "step list \<Rightarrow> system \<Rightarrow> system" where
  "run_schedule [] s = s"
| "run_schedule (x # xs) s = run_schedule xs (exec_step x s)"

text \<open>
  A schedule keeps the order of each thread: the listener alternates \<^verbatim>\<open>appendleft\<close> and
  \<^verbatim>\<open>mark_updated\<close>, a reader alternates the two reads. The flags say whether the listener
  is between its two steps and whether a reader is between its two.
\<close>

fun in_program_order :: "bool \<Rightarrow> bool \<Rightarrow> step list \<Rightarrow> bool" where
  "in_program_order l r [] = True"
| "in_program_order l r (Listener_appendleft h # xs) = (\<not> l \<and> in_program_order True r xs)"
| "in_program_order l r (Listener_mark_updated # xs) = (l \<and> in_program_order False r xs)"
| "in_program_order l r (Reader_get_update_counter # xs) = (\<not> r \<and> in_program_order l True xs)"
| "in_program_order l r (Reader_list_headlines # xs) = (r \<and> in_program_order l False xs)"

text \<open>The number of appends whose \<^verbatim>\<open>appendleft\<close> has run.\<close>

fun appends_done :: "step list \<Rightarrow> nat" where
  "appends_done [] = 0"
| "appends_done (Listener_appendleft h # xs) = Suc (appends_done xs)"
| "appends_done (x # xs) = appends_done xs"

section \<open>The store invariant\<close>

lemma length_deque_appendleft:
  "length d \<le> n \<Longrightarrow> 0 < n \<Longrightarrow> length (deque_appendleft n x d) \<le> n"
  by (simp add: deque_appendleft_def Let_def)

lemma length_appendleft:
  "length (headlines s) \<le> MAX_HEADLINES \<Longrightarrow> length (headlines (appendleft h s)) \<le> MAX_HEADLINES"
  by (simp add: appendleft_def length_deque_appendleft MAX_HEADLINES_def)

lemma length_append_headline:
  "length (headlines s) \<le> MAX_HEADLINES \<Longrightarrow>
   length (headlines (append_headline h s)) \<le> MAX_HEADLINES"
  by (simp add: append_headline_def mark_updated_def length_appendleft)

lemma counter_append_headline:
  "update_counter (append_headline h s) = update_counter s + 1"
  by (simp add: append_headline_def mark_updated_def appendleft_def)

lemma counter_run_appends:
  "update_counter (run_appends hs s) = update_counter s + length hs"
  by (induction hs arbitrary: s) (simp_all add: counter_append_headline)

lemma length_run_appends:
  "length (headlines s) \<le> MAX_HEADLINES \<Longrightarrow>
   length (headlines (run_appends hs s)) \<le> MAX_HEADLINES"
  by (induction hs arbitrary: s) (simp_all add: length_append_headline)

lemma append_trace_bounded:
  "length (headlines s) \<le> MAX_HEADLINES \<Longrightarrow>
   list_all (\<lambda>t. length (headlines t) \<le> MAX_HEADLINES) (append_trace hs s)"
  by (induction hs arbitrary: s) (simp_all add: length_append_headline length_appendleft)

text \<open>
  C2. Starting from the empty store with counter 0, after any finite sequence of appends
  the counter equals the number of appends, and the history holds at most
  \<open>MAX_HEADLINES = 100\<close> headlines in every state passed through, the states between
  \<^verbatim>\<open>appendleft\<close> and the counter increment included. The counter after each prefix of the
  sequence is the length of that prefix, so it grows by one per append without gaps.
\<close>

theorem store_invariant:
  "MAX_HEADLINES = 100
   \<and> update_counter (run_appends hs init_store) = length hs
   \<and> update_counter (run_appends (take k hs) init_store) = min k (length hs)
   \<and> length (headlines (run_appends hs init_store)) \<le> MAX_HEADLINES
   \<and> list_all (\<lambda>t. length (headlines t) \<le> MAX_HEADLINES) (append_trace hs init_store)"
proof -
  have init: "length (headlines init_store) \<le> MAX_HEADLINES"
    by (simp add: init_store_def)
  have c: "\<And>xs. update_counter (run_appends xs init_store) = length xs"
    by (simp add: counter_run_appends init_store_def)
  have b: "length (headlines (run_appends hs init_store)) \<le> MAX_HEADLINES"
    using init by (rule length_run_appends)
  have t: "list_all (\<lambda>t. length (headlines t) \<le> MAX_HEADLINES) (append_trace hs init_store)"
    using init by (rule append_trace_bounded)
  have k: "update_counter (run_appends (take k hs) init_store) = min k (length hs)"
    by (simp add: c min.commute)
  show ?thesis
    using b t k c [of hs] by (simp add: MAX_HEADLINES_def)
qed

section \<open>The fallback always renders the first template\<close>

lemma length_str: "length (str s) = length s"
  by (simp add: str_def)

lemma length_option1: "length (option1 u m) = 32 + length u + length m"
  by (simp add: option1_def length_str)

lemma length_option2: "length (option2 u m) = 24 + length u + length m"
  by (simp add: option2_def length_str)

lemma length_option3: "length (option3 u m) = 25 + length u + length m"
  by (simp add: option3_def length_str)

lemma length_option4: "length (option4 u m) = 31 + length u + length m"
  by (simp add: option4_def length_str)

lemma best_is_option1:
  "max_key_len (option1 u m) [option2 u m, option3 u m, option4 u m] = option1 u m"
  by (simp add: length_option1 length_option2 length_option3 length_option4)

text \<open>
  C10. Each of the four templates embeds the author and the message once; the fixed text
  of the first is 32 code points long, that of the others 24, 25 and 31. So the first
  is strictly the longest for every author and message, and \<^verbatim>\<open>template_fallback\<close>
  returns the title-cased rendering of the first template.
\<close>

theorem fallback_selects_first_template:
  "length (option1 u m) = 32 + length u + length m
   \<and> length (option2 u m) = 24 + length u + length m
   \<and> length (option3 u m) = 25 + length u + length m
   \<and> length (option4 u m) = 31 + length u + length m
   \<and> template_fallback T u m = smart_title T (option1 u m)"
  by (simp add: template_fallback_def best_is_option1 length_option1 length_option2
        length_option3 length_option4)

section \<open>Splitting, joining and title casing\<close>

lemma wsfree_split_from:
  "list_all (\<lambda>x. \<not> isspace x) t \<Longrightarrow> split_from w (t @ rest) = split_from (w @ t) rest"
  by (induction t arbitrary: w) simp_all

lemma split_from_ws:
  "isspace sp \<Longrightarrow> split_from w (a @ sp # b) = split_from w a @ split_from [] b"
  by (induction a arbitrary: w) simp_all

lemma split_from_tokens:
  "list_all (\<lambda>x. \<not> isspace x) w \<Longrightarrow>
   list_all (\<lambda>t. t \<noteq> [] \<and> list_all (\<lambda>x. \<not> isspace x) t) (split_from w s)"
  by (induction s arbitrary: w) simp_all

lemma isspace_SPACE: "isspace SPACE"
  by (simp add: isspace_def SPACE_def)



lemma split_join:
  "list_all (\<lambda>t. t \<noteq> [] \<and> list_all (\<lambda>x. \<not> isspace x) t) ws \<Longrightarrow>
   split_ws (join [SPACE] ws) = ws"
proof (induction "[SPACE]" ws rule: join.induct)
  case 1
  show ?case by (simp add: split_ws_def)
next
  case (2 w)
  then show ?case
    using wsfree_split_from [of w "[]" "[]"] by (simp add: split_ws_def)
next
  case (3 w v vs)
  then have "split_ws (join [SPACE] (v # vs)) = v # vs"
    by simp
  with 3 show ?case
    using wsfree_split_from [of w "[]" "SPACE # join [SPACE] (v # vs)"]
    by (simp add: split_ws_def isspace_SPACE)
qed

lemma split_ws_tokens:
  "list_all (\<lambda>t. t \<noteq> [] \<and> list_all (\<lambda>x. \<not> isspace x) t) (split_ws s)"
  by (simp add: split_ws_def split_from_tokens)

lemma fix_word_token:
  assumes "case_ok T" "w \<noteq> []" "list_all (\<lambda>x. \<not> isspace x) w"
  shows "fix_word T w \<noteq> [] \<and> list_all (\<lambda>x. \<not> isspace x) (fix_word T w)"
proof -
  obtain c cs where w: "w = c # cs" using assms(2) by (cases w) auto
  have "upper_of T c \<noteq> []" "list_all (\<lambda>x. \<not> isspace x) (upper_of T c)"
    using assms(1,3) w by (auto simp: case_ok_def)
  then show ?thesis
    using assms(3) w by (simp add: fix_word_def py_upper_def)
qed

lemma fix_word_idem:
  assumes "case_ok T"
  shows "fix_word T (fix_word T w) = fix_word T w"
proof (cases "py_isupper T w \<or> py_isupper T (fix_word T w)")
  case True
  then show ?thesis by (auto simp: fix_word_def)
next
  case False
  show ?thesis
  proof (cases w)
    case Nil
    then show ?thesis by (simp add: fix_word_def py_upper_def)
  next
    case (Cons c cs)
    obtain u us where u: "upper_of T c = u # us"
      using assms by (cases "upper_of T c") (auto simp: case_ok_def)
    have uu: "upper_of T u = [u]"
      using assms u by (metis case_ok_def list.sel(1))
    have fw: "fix_word T w = u # us @ cs"
      using False Cons u by (simp add: fix_word_def py_upper_def)
    have nu: "\<not> py_isupper T (u # us @ cs)"
      using False fw by simp
    have "fix_word T (u # us @ cs) = py_upper T [u] @ us @ cs"
      by (simp add: fix_word_def nu)
    then show ?thesis
      using fw uu by (simp add: py_upper_def)
  qed
qed

lemma smart_title_tokens:
  assumes "case_ok T"
  shows "split_ws (smart_title T s) = map (fix_word T) (split_ws s)"
proof -
  have "list_all (\<lambda>t. t \<noteq> [] \<and> list_all (\<lambda>x. \<not> isspace x) t) (map (fix_word T) (split_ws s))"
    using split_ws_tokens [of s] fix_word_token [OF assms]
    by (auto simp: list_all_iff)
  then show ?thesis
    by (simp add: smart_title_def split_join)
qed

lemma smart_title_idem:
  assumes "case_ok T"
  shows "smart_title T (smart_title T s) = smart_title T s"
proof -
  have "smart_title T (smart_title T s) = join [SPACE] (map (fix_word T) (map (fix_word T) (split_ws s)))"
    using smart_title_tokens [OF assms, of s] by (simp add: smart_title_def)
  then show ?thesis
    by (simp add: smart_title_def fix_word_idem [OF assms] comp_def)
qed

lemma case_ok_ascii: "case_ok ascii_case"
  by (auto simp: case_ok_def ascii_case_def isspace_def)

text \<open>
  C8. For every string, the whitespace-delimited tokens of \<^verbatim>\<open>smart_title(s)\<close> are those
  of \<open>s\<close>, one for one and in order, each either unchanged (when \<^verbatim>\<open>isupper()\<close> holds of
  it) or with its first code point upper-cased and the rest unchanged; and
  \<^verbatim>\<open>smart_title\<close> is idempotent. The case data is any table with the three properties of
  \<open>case_ok\<close>.
\<close>

theorem smart_title_tokenwise_idempotent:
  assumes "case_ok T"
  shows "list_all2 (\<lambda>t w. if py_isupper T w then t = w
                           else t = py_upper T (take 1 w) @ drop 1 w)
           (split_ws (smart_title T s)) (split_ws s)
         \<and> smart_title T (smart_title T s) = smart_title T s"
  using smart_title_tokens [OF assms, of s] smart_title_idem [OF assms, of s]
  by (simp add: list_all2_map1 list_all2_same fix_word_def)

theorem smart_title_tokenwise_idempotent_witness:
  "case_ok ascii_case
   \<and> smart_title ascii_case (str ''hi THERE'') = str ''Hi THERE''
   \<and> list_all2 (\<lambda>t w. if py_isupper ascii_case w then t = w
                       else t = py_upper ascii_case (take 1 w) @ drop 1 w)
       (split_ws (smart_title ascii_case (str ''hi THERE''))) (split_ws (str ''hi THERE''))
   \<and> smart_title ascii_case (smart_title ascii_case (str ''hi THERE''))
       = smart_title ascii_case (str ''hi THERE'')"
proof -
  have v: "smart_title ascii_case (str ''hi THERE'') = str ''Hi THERE''"
    by (simp add: smart_title_def split_ws_def fix_word_def py_isupper_def py_upper_def
        ascii_case_def isspace_def SPACE_def str_def)
  show ?thesis
    using smart_title_tokenwise_idempotent [OF case_ok_ascii, of "str ''hi THERE''"]
      case_ok_ascii v by blast
qed

section \<open>What the fallback headline contains\<close>

lemma starts_with_iff: "starts_with p s \<longleftrightarrow> (\<exists>q. s = p @ q)"
  by (induction p s rule: starts_with.induct) auto

lemma contains_iff: "contains sub s \<longleftrightarrow> (\<exists>p q. s = p @ sub @ q)"
proof (induction s)
  case Nil
  then show ?case by auto
next
  case (Cons c cs)
  show ?case
  proof
    assume "contains sub (c # cs)"
    then consider "starts_with sub (c # cs)" | "contains sub cs" by auto
    then show "\<exists>p q. c # cs = p @ sub @ q"
    proof cases
      case 1
      then obtain q where "c # cs = sub @ q" by (auto simp: starts_with_iff)
      then have "c # cs = [] @ sub @ q" by simp
      then show ?thesis by blast
    next
      case 2
      then obtain p q where "cs = p @ sub @ q" using Cons by auto
      then have "c # cs = (c # p) @ sub @ q" by simp
      then show ?thesis by blast
    qed
  next
    assume "\<exists>p q. c # cs = p @ sub @ q"
    then obtain p q where pq: "c # cs = p @ sub @ q" by auto
    show "contains sub (c # cs)"
    proof (cases p)
      case Nil
      then have "starts_with sub (c # cs)" using pq by (auto simp: starts_with_iff)
      then show ?thesis by simp
    next
      case (Cons a p')
      then have "cs = p' @ sub @ q" using pq by simp
      then show ?thesis using Cons.IH by auto
    qed
  qed
qed

lemma join_append:
  "join sep (xs @ ys) =
     (if xs = [] then join sep ys else if ys = [] then join sep xs
      else join sep xs @ sep @ join sep ys)"
  by (induction sep xs rule: join.induct) (auto simp: neq_Nil_conv)

lemma contains_join_middle: "contains (join sep ys) (join sep (xs @ ys @ zs))"
proof -
  have "\<exists>p q. join sep (xs @ ys @ zs) = p @ join sep ys @ q"
  proof (cases "ys = []")
    case True
    then show ?thesis by (metis append_Nil join.simps(1))
  next
    case False
    have a: "\<exists>q. join sep (ys @ zs) = join sep ys @ q"
      using False by (simp add: join_append)
    then obtain q where q: "join sep (ys @ zs) = join sep ys @ q" by blast
    have "join sep (xs @ ys @ zs) =
        (if xs = [] then [] else join sep xs @ sep) @ join sep ys @ q"
      using q False by (simp add: join_append [of sep xs])
    then show ?thesis by blast
  qed
  then show ?thesis by (simp add: contains_iff)
qed

lemma split_ws_space: "split_ws (a @ SPACE # b) = split_ws a @ split_ws b"
  by (simp add: split_ws_def split_from_ws isspace_SPACE)

lemma option1_shape:
  "option1 u m = str ''BREAKING:'' @ SPACE # (u @ SPACE #
      (str ''Stuns The Internet'' @ SPACE # ([EM_DASH] @ SPACE # m)))"
  by (simp add: option1_def str_def SPACE_def)

lemma split_ws_option1:
  "split_ws (option1 u m) =
     split_ws (str ''BREAKING:'') @ split_ws u
       @ (split_ws (str ''Stuns The Internet'') @ split_ws [EM_DASH]) @ split_ws m"
  by (simp only: option1_shape split_ws_space append_assoc)

lemma fallback_contains:
  "contains (smart_title T u) (template_fallback T u m)
   \<and> contains (smart_title T m) (template_fallback T u m)"
proof -
  let ?f = "map (fix_word T)"
  have tf: "template_fallback T u m = smart_title T (option1 u m)"
    by (simp only: template_fallback_def Let_def best_is_option1)
  have 1: "smart_title T (option1 u m) =
      join [SPACE] (?f (split_ws (str ''BREAKING:'')) @ ?f (split_ws u)
        @ ?f ((split_ws (str ''Stuns The Internet'') @ split_ws [EM_DASH]) @ split_ws m))"
    by (simp add: smart_title_def split_ws_option1)
  have 2: "smart_title T (option1 u m) =
      join [SPACE] ((?f (split_ws (str ''BREAKING:'')) @ ?f (split_ws u)
        @ ?f (split_ws (str ''Stuns The Internet'') @ split_ws [EM_DASH])) @ ?f (split_ws m) @ [])"
    by (simp add: smart_title_def split_ws_option1)
  show ?thesis
    unfolding tf
    apply (rule conjI)
     apply (subst 1, simp only: smart_title_def, rule contains_join_middle)
    apply (subst 2, simp only: smart_title_def, rule contains_join_middle)
    done
qed

lemma fallback_alice_hi:
  "template_fallback ascii_case (str ''alice'') (str ''hi'')
     = str ''BREAKING: Alice Stuns The Internet '' @ [EM_DASH, SPACE] @ str ''Hi''"
  by (simp add: template_fallback_def option1_def option2_def option3_def option4_def
      smart_title_def split_ws_def fix_word_def py_isupper_def py_upper_def
      ascii_case_def isspace_def SPACE_def EM_DASH_def str_def)

text \<open>
  C4, as stated, fails: for the author \<^verbatim>\<open>alice\<close> and the message \<^verbatim>\<open>hi\<close> the fallback
  returns \<^verbatim>\<open>BREAKING: Alice Stuns The Internet - Hi\<close> (with an em dash), which contains
  neither \<^verbatim>\<open>alice\<close> nor \<^verbatim>\<open>hi\<close>: \<^verbatim>\<open>smart_title\<close> upper-cases the first letter of each.
\<close>

theorem fallback_exact_author_counterexample:
  "\<not> contains (str ''alice'') (template_fallback ascii_case (str ''alice'') (str ''hi''))
   \<and> \<not> contains (str ''hi'') (template_fallback ascii_case (str ''alice'') (str ''hi''))"
  by (simp add: fallback_alice_hi) (simp add: SPACE_def EM_DASH_def str_def)

text \<open>
  C4, amended. \<^verbatim>\<open>template_fallback\<close> is a function of the author and the message alone:
  the title-cased rendering of the first template. Its output contains the author and
  the message as \<^verbatim>\<open>smart_title\<close> renders them (tokens title-cased, whitespace runs
  collapsed to one space, ends trimmed), each as a contiguous substring.
\<close>

theorem fallback_contains_title_cased:
  "template_fallback T u m = smart_title T (option1 u m)
   \<and> contains (smart_title T u) (template_fallback T u m)
   \<and> contains (smart_title T m) (template_fallback T u m)"
  using fallback_contains [of T u m]
  by (simp only: template_fallback_def Let_def best_is_option1 simp_thms)

end
